theory Spec2Isabelle
  imports Complex_Main
begin

section \<open>The to-do backend: task controller and routes\<close>

text \<open>
  The development embeds the task controller of the to-do backend (the handlers
  \<open>getAllTasks\<close>, \<open>createTask\<close>, \<open>getTaskById\<close> and \<open>markTaskAsDone\<close>) together with the
  module state they share (\<open>tasks\<close> and \<open>nextId\<close>) and the route table of
  \<open>routes/taskRoutes.ts\<close>. A handler takes its input and the module state and returns
  the response it sends and the module state it leaves.
\<close>

subsection \<open>JavaScript values\<close>

text \<open>
  What \<open>express.json()\<close> puts into \<open>req.body\<close>: a parsed JSON object, here the list of
  its members in the order of the text. A number carries the value of the parsed
  double, which is a rational.
\<close>

datatype json =
    JNull
  | JBool bool
  | JNum rat
  | JStr string
  | JArr "json list"
  | JObj "(string \<times> json) list"

type_synonym reqbody = "(string \<times> json) list"

text \<open>
  Reading the property \<open>k\<close> of the parsed object; \<open>None\<close> is JavaScript's \<open>undefined\<close>.
  Where the text repeats a key, \<open>JSON.parse\<close> keeps the last member.
\<close>

definition property :: "string \<Rightarrow> reqbody \<Rightarrow> json option" where
  "property k b = map_of (rev b) k"

text \<open>The operator \<open>typeof\<close>.\<close>

fun typeof :: "json option \<Rightarrow> string" where
  "typeof None = ''undefined''"
| "typeof (Some JNull) = ''object''"
| "typeof (Some (JBool b)) = ''boolean''"
| "typeof (Some (JNum x)) = ''number''"
| "typeof (Some (JStr s)) = ''string''"
| "typeof (Some (JArr xs)) = ''object''"
| "typeof (Some (JObj ms)) = ''object''"

text \<open>
  Truthiness, as \<open>!title\<close> tests it: \<open>undefined\<close>, \<open>null\<close>, \<open>false\<close>, zero and the empty
  string are falsy, every other value is truthy.
\<close>

fun truthy :: "json option \<Rightarrow> bool" where
  "truthy None = False"
| "truthy (Some JNull) = False"
| "truthy (Some (JBool b)) = b"
| "truthy (Some (JNum x)) = (x \<noteq> 0)"
| "truthy (Some (JStr s)) = (s \<noteq> [])"
| "truthy (Some (JArr xs)) = True"
| "truthy (Some (JObj ms)) = True"

subsection \<open>Numbers read from a path segment\<close>

text \<open>
  The result of \<open>parseInt(s, 10)\<close> is a Number: not-a-number, a double whose value is an
  integer, or an infinity. \<open>Num n\<close> is the double of value \<open>n\<close>. Negative zero is \<open>Num 0\<close>,
  to which \<open>===\<close> equates it.
\<close>

datatype jsnum = NaN | Num int | Infinity | NegInfinity

fun isNaN :: "jsnum \<Rightarrow> bool" where
  "isNaN NaN = True"
| "isNaN (Num n) = False"
| "isNaN Infinity = False"
| "isNaN NegInfinity = False"

text \<open>
  \<open>t.id === id\<close>, for the identifier of a stored task and a parsed number. The
  identifier of a stored task is a value of the counter \<open>nextId\<close>, which starts at 1
  and goes up by one with each task of the array; it stays far below \<open>2^53\<close>, where
  every integer is a double, and is kept as an integer.
\<close>

fun strict_eq :: "int \<Rightarrow> jsnum \<Rightarrow> bool" where
  "strict_eq n NaN = False"
| "strict_eq n (Num m) = (n = m)"
| "strict_eq n Infinity = False"
| "strict_eq n NegInfinity = False"

text \<open>The number of binary digits of a positive integer.\<close>

function bit_len :: "int \<Rightarrow> nat" where
  "bit_len n = (if n \<le> 0 then 0 else Suc (bit_len (n div 2)))"
  by pat_completeness auto
termination
  by (relation "measure nat") auto

text \<open>
  The double nearest to an integer, ties to the even significand. An integer below
  \<open>2^53\<close> in absolute value is a double. A larger one keeps its 53 leading binary
  digits \<open>q\<close>, rounded by the digits \<open>r\<close> that are cut off; what reaches \<open>2^1024\<close> is an
  infinity.
\<close>

definition nearest_double :: "int \<Rightarrow> jsnum" where
  "nearest_double m =
     (let a = \<bar>m\<bar>
      in if a < 2 ^ 53 then Num m
         else (let sh = bit_len a - 53;
                   q = a div 2 ^ sh;
                   r = a mod 2 ^ sh;
                   half = 2 ^ (sh - 1);
                   q1 = (if half < r \<or> (r = half \<and> odd q) then q + 1 else q);
                   v = q1 * 2 ^ sh
               in if 2 ^ 1024 \<le> v then (if m < 0 then NegInfinity else Infinity)
                  else Num (sgn m * v)))"

text \<open>
  A character is a code unit below 256. The white space and line terminators that
  \<open>parseInt\<close> skips are, in that range, TAB, LF, VT, FF, CR, SP and NBSP.
\<close>

definition is_ws :: "char \<Rightarrow> bool" where
  "is_ws c = (of_char c \<in> {9::nat, 10, 11, 12, 13, 32, 160})"

definition is_digit :: "char \<Rightarrow> bool" where
  "is_digit c = (48 \<le> (of_char c :: nat) \<and> (of_char c :: nat) \<le> 57)"

definition digit_val :: "char \<Rightarrow> int" where
  "digit_val c = int (of_char c) - 48"

text \<open>The mathematical integer that a run of decimal digits denotes.\<close>

definition digits_val :: "string \<Rightarrow> int" where
  "digits_val ds = foldl (\<lambda>acc c. acc * 10 + digit_val c) 0 ds"

text \<open>
  \<open>parseInt(s, 10)\<close>: skip leading white space, take an optional sign, take the
  longest run of decimal digits that follows, and ignore the rest. Without a digit
  the result is not-a-number; otherwise it is the double nearest to the signed
  integer that the digits denote. Radix 10 strips no \<open>0x\<close> prefix.
\<close>

definition parseInt :: "string \<Rightarrow> jsnum" where
  "parseInt s =
     (let s1 = dropWhile is_ws s;
          sign = (case s1 of c # _ \<Rightarrow> (if c = CHR ''-'' then - 1 else 1) | [] \<Rightarrow> (1::int));
          s2 = (case s1 of c # r \<Rightarrow> (if c = CHR ''-'' \<or> c = CHR ''+'' then r else s1) | [] \<Rightarrow> s1);
          z = takeWhile is_digit s2
      in if z = [] then NaN else nearest_double (sign * digits_val z))"

subsection \<open>Tasks, module state, responses\<close>

text \<open>
  Modelled from the spec: the interface \<open>Task\<close> of \<open>types/task.ts\<close>, which is not among
  the sources: \<open>{ id, title, completed }\<close>, the three fields that \<open>createTask\<close> fills.
\<close>

record task =
  task_id :: int
  title :: string
  completed :: bool

text \<open>The module variables \<open>tasks\<close> and \<open>nextId\<close>.\<close>

record store =
  tasks :: "task list"
  nextId :: int

definition initial_store :: store where
  "initial_store = \<lparr>tasks = [], nextId = 1\<rparr>"

text \<open>
  A response is a status and the JSON document sent with it; \<open>res.json\<close> without
  \<open>res.status\<close> sends status 200. The document is written at the call, so it holds the
  task as it is at that moment.
\<close>

datatype document =
    TaskDoc task
  | TaskListDoc "task list"
  | ErrorDoc string

record response =
  status :: nat
  document :: document

subsection \<open>The handlers\<close>

definition getAllTasks :: "store \<Rightarrow> response \<times> store" where
  "getAllTasks s = (\<lparr>status = 200, document = TaskListDoc (tasks s)\<rparr>, s)"

text \<open>
  \<open>createTask\<close>. After the guard the title is a string; the last branch of the case is
  there for totality and is never taken (lemma \<open>createTask_guard\<close> below).
\<close>

definition title_error :: document where
  "title_error = ErrorDoc ''Title is required and must be a string''"

definition createTask :: "reqbody \<Rightarrow> store \<Rightarrow> response \<times> store" where
  "createTask b s =
     (let ttl = property ''title'' b
      in if \<not> truthy ttl \<or> typeof ttl \<noteq> ''string''
         then (\<lparr>status = 400, document = title_error\<rparr>, s)
         else (case ttl of
                 Some (JStr str) \<Rightarrow>
                   (let t = \<lparr>task_id = nextId s, title = str, completed = False\<rparr>
                    in (\<lparr>status = 201, document = TaskDoc t\<rparr>,
                        s\<lparr>tasks := tasks s @ [t], nextId := nextId s + 1\<rparr>))
               | _ \<Rightarrow> (\<lparr>status = 400, document = title_error\<rparr>, s)))"

definition not_found :: document where
  "not_found = ErrorDoc ''Task not found''"

definition getTaskById :: "string \<Rightarrow> store \<Rightarrow> response \<times> store" where
  "getTaskById idseg s =
     (let n = parseInt idseg
      in case find (\<lambda>t. strict_eq (task_id t) n) (tasks s) of
           None \<Rightarrow> (\<lparr>status = 404, document = not_found\<rparr>, s)
         | Some t \<Rightarrow> (\<lparr>status = 200, document = TaskDoc t\<rparr>, s))"

text \<open>\<open>Array.prototype.findIndex\<close>; \<open>None\<close> is the result \<open>-1\<close>.\<close>

fun findIndex :: "('a \<Rightarrow> bool) \<Rightarrow> 'a list \<Rightarrow> nat option" where
  "findIndex P [] = None"
| "findIndex P (x # xs) = (if P x then Some 0 else map_option Suc (findIndex P xs))"

definition markTaskAsDone :: "string \<Rightarrow> store \<Rightarrow> response \<times> store" where
  "markTaskAsDone idseg s =
     (let n = parseInt idseg
      in if isNaN n
         then (\<lparr>status = 400, document = ErrorDoc ''Invalid ID format''\<rparr>, s)
         else (case findIndex (\<lambda>t. strict_eq (task_id t) n) (tasks s) of
                 None \<Rightarrow> (\<lparr>status = 404, document = not_found\<rparr>, s)
               | Some i \<Rightarrow>
                   (let ts = (tasks s)[i := (tasks s ! i)\<lparr>completed := True\<rparr>]
                    in (\<lparr>status = 200, document = TaskDoc (ts ! i)\<rparr>, s\<lparr>tasks := ts\<rparr>))))"

subsection \<open>Routes and runs\<close>

text \<open>The four routes of \<open>routes/taskRoutes.ts\<close>, each with the input its handler reads.\<close>

datatype request =
    GET_tasks
  | POST_tasks reqbody
  | GET_tasks_id string
  | PATCH_tasks_id_done string

fun router :: "request \<Rightarrow> store \<Rightarrow> response \<times> store" where
  "router GET_tasks s = getAllTasks s"
| "router (POST_tasks b) s = createTask b s"
| "router (GET_tasks_id idseg) s = getTaskById idseg s"
| "router (PATCH_tasks_id_done idseg) s = markTaskAsDone idseg s"

text \<open>Requests are served one after the other, each on the state the last one left.\<close>

fun run :: "request list \<Rightarrow> store \<Rightarrow> response list \<times> store" where
  "run [] s = ([], s)"
| "run (r # rs) s =
     (case router r s of (resp, s1) \<Rightarrow>
        (case run rs s1 of (resps, s2) \<Rightarrow> (resp # resps, s2)))"

text \<open>The identifiers that the responses with status 201 report, in order.\<close>

fun created_ids :: "response list \<Rightarrow> int list" where
  "created_ids [] = []"
| "created_ids (r # rs) =
     (case document r of
        TaskDoc t \<Rightarrow> (if status r = 201 then task_id t # created_ids rs else created_ids rs)
      | _ \<Rightarrow> created_ids rs)"

text \<open>A request that is routed to \<open>createTask\<close>.\<close>

definition is_create :: "request \<Rightarrow> bool" where
  "is_create r = (case r of POST_tasks b \<Rightarrow> True | _ \<Rightarrow> False)"

section \<open>Auxiliary facts\<close>

declare bit_len.simps [simp del]

subsection \<open>Searching the task array\<close>

lemma findIndex_None: "findIndex P xs = None \<longleftrightarrow> (\<forall>x\<in>set xs. \<not> P x)"
  by (induction xs) auto

lemma findIndex_Some:
  "findIndex P xs = Some i \<Longrightarrow> i < length xs \<and> P (xs ! i) \<and> (\<forall>j<i. \<not> P (xs ! j))"
proof (induction xs arbitrary: i)
  case Nil
  then show ?case by simp
next
  case (Cons x xs)
  show ?case
  proof (cases "P x")
    case True
    with Cons.prems show ?thesis by simp
  next
    case False
    with Cons.prems obtain k where k: "findIndex P xs = Some k" "i = Suc k"
      by auto
    from Cons.IH [OF k(1)] False k(2) show ?thesis
      by (auto simp: less_Suc_eq_0_disj)
  qed
qed

text \<open>\<open>find\<close> returns the element at the index that \<open>findIndex\<close> returns.\<close>

lemma find_findIndex: "find P xs = map_option (nth xs) (findIndex P xs)"
  by (induction xs) (auto simp: option.map_comp comp_def)

lemma findIndex_map_cong: "map P xs = map P ys \<Longrightarrow> findIndex P xs = findIndex P ys"
proof (induction xs arbitrary: ys)
  case Nil
  then show ?case by simp
next
  case (Cons x xs)
  then obtain y ys' where ys: "ys = y # ys'" "P x = P y" "map P xs = map P ys'"
    by (cases ys) auto
  with Cons.IH [of ys'] show ?case by simp
qed

lemma map_update_same: "f y = f (xs ! i) \<Longrightarrow> map f (xs[i := y]) = map f xs"
  by (induction xs arbitrary: i) (auto split: nat.splits)

lemma complete_again: "completed t \<Longrightarrow> t\<lparr>completed := True\<rparr> = t"
  by (cases t) simp

subsection \<open>The guard of \<open>createTask\<close>\<close>

text \<open>Past the guard the title is a string that is not empty.\<close>

lemma createTask_guard:
  "\<not> (\<not> truthy t \<or> typeof t \<noteq> ''string'') \<Longrightarrow> \<exists>str. str \<noteq> [] \<and> t = Some (JStr str)"
  by (cases t rule: typeof.cases) auto

subsection \<open>The three outcomes of \<open>markTaskAsDone\<close>\<close>

lemma markTaskAsDone_NaN:
  "parseInt idseg = NaN \<Longrightarrow>
     markTaskAsDone idseg s = (\<lparr>status = 400, document = ErrorDoc ''Invalid ID format''\<rparr>, s)"
  by (simp add: markTaskAsDone_def)

lemma markTaskAsDone_absent:
  "parseInt idseg = Num n \<Longrightarrow> n \<notin> task_id ` set (tasks s) \<Longrightarrow>
     markTaskAsDone idseg s = (\<lparr>status = 404, document = ErrorDoc ''Task not found''\<rparr>, s)"
proof -
  assume p: "parseInt idseg = Num n" and a: "n \<notin> task_id ` set (tasks s)"
  from a have "findIndex (\<lambda>t. strict_eq (task_id t) (Num n)) (tasks s) = None"
    by (auto simp: findIndex_None)
  with p show ?thesis
    by (simp add: markTaskAsDone_def not_found_def)
qed

lemma markTaskAsDone_infinite:
  "parseInt idseg = Infinity \<or> parseInt idseg = NegInfinity \<Longrightarrow>
     markTaskAsDone idseg s = (\<lparr>status = 404, document = ErrorDoc ''Task not found''\<rparr>, s)"
  by (auto simp: markTaskAsDone_def not_found_def findIndex_None [THEN iffD2])

lemma markTaskAsDone_present:
  assumes p: "parseInt idseg = Num n" and a: "n \<in> task_id ` set (tasks s)"
  shows "\<exists>i<length (tasks s). task_id (tasks s ! i) = n \<and> (\<forall>j<i. task_id (tasks s ! j) \<noteq> n)
     \<and> markTaskAsDone idseg s =
         (\<lparr>status = 200, document = TaskDoc ((tasks s ! i)\<lparr>completed := True\<rparr>)\<rparr>,
          s\<lparr>tasks := (tasks s)[i := (tasks s ! i)\<lparr>completed := True\<rparr>]\<rparr>)"
proof -
  from a have "findIndex (\<lambda>t. strict_eq (task_id t) (Num n)) (tasks s) \<noteq> None"
    by (auto simp: findIndex_None)
  then obtain i where i: "findIndex (\<lambda>t. strict_eq (task_id t) (Num n)) (tasks s) = Some i"
    by auto
  from findIndex_Some [OF i]
  have props: "i < length (tasks s)" "task_id (tasks s ! i) = n" "\<forall>j<i. task_id (tasks s ! j) \<noteq> n"
    by simp_all
  from p i props(1) have "markTaskAsDone idseg s =
         (\<lparr>status = 200, document = TaskDoc ((tasks s ! i)\<lparr>completed := True\<rparr>)\<rparr>,
          s\<lparr>tasks := (tasks s)[i := (tasks s ! i)\<lparr>completed := True\<rparr>]\<rparr>)"
    by (simp add: markTaskAsDone_def Let_def)
  with props show ?thesis by blast
qed

lemma markTaskAsDone_cases:
  "markTaskAsDone idseg s = (resp, s1) \<Longrightarrow>
     (s1 = s \<and> status resp \<noteq> 200)
   \<or> (\<exists>i<length (tasks s). parseInt idseg = Num (task_id (tasks s ! i))
        \<and> (\<forall>j<i. task_id (tasks s ! j) \<noteq> task_id (tasks s ! i))
        \<and> resp = \<lparr>status = 200, document = TaskDoc ((tasks s ! i)\<lparr>completed := True\<rparr>)\<rparr>
        \<and> s1 = s\<lparr>tasks := (tasks s)[i := (tasks s ! i)\<lparr>completed := True\<rparr>]\<rparr>)"
proof (cases "parseInt idseg")
  case NaN
  assume "markTaskAsDone idseg s = (resp, s1)"
  with markTaskAsDone_NaN [OF NaN, of s] show ?thesis by auto
next
  case (Num n)
  assume run: "markTaskAsDone idseg s = (resp, s1)"
  show ?thesis
  proof (cases "n \<in> task_id ` set (tasks s)")
    case True
    from markTaskAsDone_present [OF Num True] run Num show ?thesis
      by auto
  next
    case False
    from markTaskAsDone_absent [OF Num False] run show ?thesis by auto
  qed
next
  case Infinity
  assume "markTaskAsDone idseg s = (resp, s1)"
  with markTaskAsDone_infinite [of idseg s] Infinity show ?thesis by auto
next
  case NegInfinity
  assume "markTaskAsDone idseg s = (resp, s1)"
  with markTaskAsDone_infinite [of idseg s] NegInfinity show ?thesis by auto
qed

subsection \<open>The outcomes of \<open>getTaskById\<close>\<close>

lemma getTaskById_unchanged: "snd (getTaskById idseg s) = s"
  by (simp add: getTaskById_def Let_def split: option.splits)

lemma getTaskById_NaN:
  "parseInt idseg = NaN \<Longrightarrow>
     fst (getTaskById idseg s) = \<lparr>status = 404, document = ErrorDoc ''Task not found''\<rparr>"
  by (simp add: getTaskById_def not_found_def find_None_iff [THEN iffD2])

lemma getTaskById_absent:
  "parseInt idseg = Num n \<Longrightarrow> n \<notin> task_id ` set (tasks s) \<Longrightarrow>
     fst (getTaskById idseg s) = \<lparr>status = 404, document = ErrorDoc ''Task not found''\<rparr>"
proof -
  assume p: "parseInt idseg = Num n" and a: "n \<notin> task_id ` set (tasks s)"
  from a have "find (\<lambda>t. strict_eq (task_id t) (Num n)) (tasks s) = None"
    by (auto simp: find_None_iff)
  with p show ?thesis
    by (simp add: getTaskById_def not_found_def)
qed

lemma getTaskById_infinite:
  "parseInt idseg = Infinity \<or> parseInt idseg = NegInfinity \<Longrightarrow>
     fst (getTaskById idseg s) = \<lparr>status = 404, document = ErrorDoc ''Task not found''\<rparr>"
  by (auto simp: getTaskById_def not_found_def find_None_iff [THEN iffD2])

lemma getTaskById_present:
  assumes p: "parseInt idseg = Num n" and a: "n \<in> task_id ` set (tasks s)"
  shows "\<exists>i<length (tasks s). task_id (tasks s ! i) = n \<and> (\<forall>j<i. task_id (tasks s ! j) \<noteq> n)
     \<and> fst (getTaskById idseg s) = \<lparr>status = 200, document = TaskDoc (tasks s ! i)\<rparr>"
proof -
  from a have "findIndex (\<lambda>t. strict_eq (task_id t) (Num n)) (tasks s) \<noteq> None"
    by (auto simp: findIndex_None)
  then obtain i where i: "findIndex (\<lambda>t. strict_eq (task_id t) (Num n)) (tasks s) = Some i"
    by auto
  from findIndex_Some [OF i]
  have props: "i < length (tasks s)" "task_id (tasks s ! i) = n" "\<forall>j<i. task_id (tasks s ! j) \<noteq> n"
    by simp_all
  from p i have "fst (getTaskById idseg s) = \<lparr>status = 200, document = TaskDoc (tasks s ! i)\<rparr>"
    by (simp add: getTaskById_def find_findIndex)
  with props show ?thesis by blast
qed

subsection \<open>One request\<close>

lemma created_ids_Cons: "created_ids (r # rs) = created_ids [r] @ created_ids rs"
  by (simp split: document.splits)

text \<open>
  A request either leaves the counter and the identifiers of the array alone and
  reports no new identifier, or it reports the counter, appends it and counts up.
\<close>

lemma router_step:
  assumes "router r s = (resp, s1)"
  shows "(created_ids [resp] = [] \<and> nextId s1 = nextId s
            \<and> map task_id (tasks s1) = map task_id (tasks s))
   \<or> (created_ids [resp] = [nextId s] \<and> nextId s1 = nextId s + 1
        \<and> map task_id (tasks s1) = map task_id (tasks s) @ [nextId s])"
proof (cases r)
  case GET_tasks
  with assms show ?thesis by (auto simp: getAllTasks_def)
next
  case (POST_tasks b)
  with assms show ?thesis
    by (auto simp: createTask_def Let_def title_error_def
        split: if_splits option.splits json.splits)
next
  case (GET_tasks_id idseg)
  with assms show ?thesis
    by (auto simp: getTaskById_def Let_def not_found_def split: option.splits)
next
  case (PATCH_tasks_id_done idseg)
  with assms show ?thesis
    by (auto simp: markTaskAsDone_def Let_def not_found_def map_update_same
        split: if_splits option.splits)
qed

text \<open>What a request does to the task array.\<close>

lemma router_tasks:
  assumes "router r s = (resp, s1)"
  shows "tasks s1 = tasks s
   \<or> (\<exists>b t. r = POST_tasks b \<and> tasks s1 = tasks s @ [t] \<and> \<not> completed t)
   \<or> (\<exists>idseg i. r = PATCH_tasks_id_done idseg \<and> i < length (tasks s)
        \<and> parseInt idseg = Num (task_id (tasks s ! i))
        \<and> tasks s1 = (tasks s)[i := (tasks s ! i)\<lparr>completed := True\<rparr>])"
proof (cases r)
  case GET_tasks
  with assms show ?thesis by (auto simp: getAllTasks_def)
next
  case (POST_tasks b)
  with assms show ?thesis
    by (auto simp: createTask_def Let_def split: if_splits option.splits json.splits)
next
  case (GET_tasks_id idseg)
  with assms getTaskById_unchanged [of idseg s] show ?thesis by auto
next
  case (PATCH_tasks_id_done idseg)
  with assms have "markTaskAsDone idseg s = (resp, s1)" by simp
  from markTaskAsDone_cases [OF this] PATCH_tasks_id_done show ?thesis
    by auto
qed

lemma step_keeps:
  assumes "i < length (tasks s)"
  shows "i < length (tasks (snd (router r s)))
    \<and> (completed (tasks s ! i) \<longrightarrow> completed (tasks (snd (router r s)) ! i))"
proof -
  obtain resp s1 where r: "router r s = (resp, s1)"
    by (cases "router r s")
  from router_tasks [OF r] assms show ?thesis
    unfolding r snd_conv
    by (auto simp: nth_append nth_list_update)
qed

lemma step_change:
  assumes "i < length (tasks s)"
    and "completed (tasks (snd (router r s)) ! i) \<noteq> completed (tasks s ! i)"
  shows "\<exists>idseg. r = PATCH_tasks_id_done idseg \<and> parseInt idseg = Num (task_id (tasks s ! i))"
proof -
  obtain resp s1 where r: "router r s = (resp, s1)"
    by (cases "router r s")
  from router_tasks [OF r] assms show ?thesis
    unfolding r snd_conv
    by (auto simp: nth_append nth_list_update split: if_splits)
qed

lemma step_new:
  assumes "i < length (tasks (snd (router r s)))" and "length (tasks s) \<le> i"
  shows "\<not> completed (tasks (snd (router r s)) ! i) \<and> (\<exists>b. r = POST_tasks b)"
proof -
  obtain resp s1 where r: "router r s = (resp, s1)"
    by (cases "router r s")
  from router_tasks [OF r] assms show ?thesis
    unfolding r snd_conv
    by (auto simp: nth_append)
qed

subsection \<open>Runs\<close>

lemma run_keeps:
  "i < length (tasks s) \<Longrightarrow> completed (tasks s ! i) \<Longrightarrow>
     i < length (tasks (snd (run rs s))) \<and> completed (tasks (snd (run rs s)) ! i)"
proof (induction rs arbitrary: s)
  case Nil
  then show ?case by simp
next
  case (Cons r rs)
  obtain resp s1 where step: "router r s = (resp, s1)"
    by (cases "router r s")
  obtain resps s2 where rest: "run rs s1 = (resps, s2)"
    by (cases "run rs s1")
  have whole: "run (r # rs) s = (resp # resps, s2)"
    by (simp add: step rest)
  from step_keeps [OF Cons.prems(1), of r] Cons.prems(2) step
  have "i < length (tasks s1)" "completed (tasks s1 ! i)"
    by simp_all
  from Cons.IH [OF this] rest show ?case
    unfolding whole by simp
qed

text \<open>
  From any state, a run reports the identifiers from the counter upwards, one after the
  other, and appends exactly those to the array.
\<close>

lemma run_ids:
  "created_ids (fst (run rs s))
     = [nextId s .. nextId s + int (length (created_ids (fst (run rs s)))) - 1]
   \<and> nextId (snd (run rs s)) = nextId s + int (length (created_ids (fst (run rs s))))
   \<and> map task_id (tasks (snd (run rs s))) = map task_id (tasks s) @ created_ids (fst (run rs s))"
proof (induction rs arbitrary: s)
  case Nil
  show ?case by simp
next
  case (Cons r rs)
  obtain resp s1 where step: "router r s = (resp, s1)"
    by (cases "router r s")
  obtain resps s2 where rest: "run rs s1 = (resps, s2)"
    by (cases "run rs s1")
  have whole: "run (r # rs) s = (resp # resps, s2)"
    by (simp add: step rest)
  from Cons.IH [of s1] rest
  have ih: "created_ids resps = [nextId s1 .. nextId s1 + int (length (created_ids resps)) - 1]"
    "nextId s2 = nextId s1 + int (length (created_ids resps))"
    "map task_id (tasks s2) = map task_id (tasks s1) @ created_ids resps"
    by simp_all
  from router_step [OF step] show ?case
  proof
    assume a: "created_ids [resp] = [] \<and> nextId s1 = nextId s
      \<and> map task_id (tasks s1) = map task_id (tasks s)"
    then have "created_ids (resp # resps) = created_ids resps"
      by (subst created_ids_Cons) (simp del: created_ids.simps)
    with a ih show ?thesis
      unfolding whole by (simp del: created_ids.simps)
  next
    assume a: "created_ids [resp] = [nextId s] \<and> nextId s1 = nextId s + 1
      \<and> map task_id (tasks s1) = map task_id (tasks s) @ [nextId s]"
    then have c: "created_ids (resp # resps) = nextId s # created_ids resps"
      by (subst created_ids_Cons) (simp del: created_ids.simps)
    have "[nextId s .. nextId s + int (Suc (length (created_ids resps))) - 1]
        = nextId s # [nextId s + 1 .. nextId s + 1 + int (length (created_ids resps)) - 1]"
      by (subst upto_rec1) (simp_all add: add.commute)
    with a ih c show ?thesis
      unfolding whole by (simp del: created_ids.simps)
  qed
qed

lemma created_ids_all:
  "\<forall>r\<in>set rs. is_create r \<Longrightarrow> \<forall>resp\<in>set (fst (run rs s)). status resp = 201
    \<Longrightarrow> length (created_ids (fst (run rs s))) = length rs"
proof (induction rs arbitrary: s)
  case Nil
  show ?case by simp
next
  case (Cons r rs)
  obtain resp s1 where step: "router r s = (resp, s1)"
    by (cases "router r s")
  obtain resps s2 where rest: "run rs s1 = (resps, s2)"
    by (cases "run rs s1")
  have whole: "run (r # rs) s = (resp # resps, s2)"
    by (simp add: step rest)
  from Cons.prems whole have ok: "status resp = 201" "\<forall>x\<in>set resps. status x = 201"
    by simp_all
  from Cons.prems obtain b where r: "r = POST_tasks b"
    by (cases r) (simp_all add: is_create_def)
  from step r ok(1) have "created_ids [resp] = [nextId s]"
    by (auto simp: createTask_def Let_def split: if_splits option.splits json.splits)
  then have "created_ids (resp # resps) = nextId s # created_ids resps"
    by (subst created_ids_Cons) (simp del: created_ids.simps)
  moreover from Cons.IH [of s1] Cons.prems(1) ok(2) rest
  have "length (created_ids resps) = length rs"
    by simp
  ultimately show ?case
    unfolding whole by (simp del: created_ids.simps)
qed

subsection \<open>Parsing a run of digits\<close>

lemma digit_not_ws: "is_digit c \<Longrightarrow> \<not> is_ws c"
  by (auto simp: is_digit_def is_ws_def)

lemma digit_not_sign: "is_digit c \<Longrightarrow> c \<noteq> CHR ''-'' \<and> c \<noteq> CHR ''+''"
  by (auto simp: is_digit_def)

lemma parseInt_digits_then:
  assumes ne: "ds \<noteq> []" and dig: "\<forall>c\<in>set ds. is_digit c"
    and stop: "rest = [] \<or> \<not> is_digit (hd rest)"
  shows "parseInt (ds @ rest) = nearest_double (digits_val ds)"
proof -
  from ne obtain d ds' where ds: "ds = d # ds'"
    by (cases ds) auto
  with dig have d: "is_digit d" by simp
  have tw: "takeWhile is_digit (ds @ rest) = ds"
  proof -
    from stop have "takeWhile is_digit rest = []"
      by (cases rest) auto
    with dig show ?thesis
      by (simp add: takeWhile_append2)
  qed
  have dw: "dropWhile is_ws (ds @ rest) = ds @ rest"
    using d digit_not_ws [OF d] by (simp add: ds)
  show ?thesis
    unfolding parseInt_def dw
    using digit_not_sign [OF d] tw ne
    by (simp add: ds Let_def)
qed

text \<open>The value of a run of digits, digit by digit and by position.\<close>

lemma digits_val_snoc: "digits_val (ds @ [d]) = digits_val ds * 10 + digit_val d"
  by (simp add: digits_val_def)

lemma digits_val_positional:
  "digits_val ds = (\<Sum>i<length ds. digit_val (ds ! i) * 10 ^ (length ds - Suc i))"
proof (induction ds rule: rev_induct)
  case Nil
  show ?case by (simp add: digits_val_def)
next
  case (snoc d ds)
  have "(\<Sum>i<length ds. digit_val ((ds @ [d]) ! i) * 10 ^ (length (ds @ [d]) - Suc i))
      = (\<Sum>i<length ds. (digit_val (ds ! i) * 10 ^ (length ds - Suc i)) * 10)"
  proof (rule sum.cong)
    fix i assume "i \<in> {..<length ds}"
    then have i: "i < length ds" by simp
    then have "length (ds @ [d]) - Suc i = Suc (length ds - Suc i)"
      by simp
    with i show "digit_val ((ds @ [d]) ! i) * 10 ^ (length (ds @ [d]) - Suc i)
        = (digit_val (ds ! i) * 10 ^ (length ds - Suc i)) * 10"
      by (simp add: nth_append)
  qed simp
  also have "\<dots> = digits_val ds * 10"
    by (simp add: snoc.IH sum_distrib_right)
  finally show ?case
    by (simp add: digits_val_snoc)
qed

lemma digit_val_range: "is_digit c \<Longrightarrow> 0 \<le> digit_val c \<and> digit_val c \<le> 9"
  by (auto simp: is_digit_def digit_val_def)

lemma digits_val_nonneg: "\<forall>c\<in>set ds. is_digit c \<Longrightarrow> 0 \<le> digits_val ds"
proof (induction ds rule: rev_induct)
  case Nil
  show ?case by (simp add: digits_val_def)
next
  case (snoc d ds)
  then have "0 \<le> digits_val ds" "0 \<le> digit_val d"
    using digit_val_range [of d] by simp_all
  then show ?case
    by (simp add: digits_val_snoc)
qed

text \<open>An integer up to \<open>2^53\<close> is a double.\<close>

lemma nearest_double_pow53: "nearest_double (2 ^ 53) = Num (2 ^ 53)"
  by code_simp

lemma nearest_double_exact: "0 \<le> m \<Longrightarrow> m \<le> 2 ^ 53 \<Longrightarrow> nearest_double m = Num m"
proof (cases "m = 2 ^ 53")
  case True
  then show ?thesis
    by (simp only: nearest_double_pow53)
next
  case False
  assume "0 \<le> m" "m \<le> 2 ^ 53"
  with False have "\<bar>m\<bar> < 2 ^ 53" by simp
  then show ?thesis
    by (simp add: nearest_double_def)
qed

lemma nearest_double_not_NaN: "nearest_double m \<noteq> NaN"
  by (simp add: nearest_double_def Let_def)

text \<open>A run of 309 nines is beyond the largest double.\<close>

lemma parseInt_overflow: "parseInt (replicate 309 CHR ''9'') = Infinity"
  by code_simp

lemmas parse_defs =
  parseInt_def is_ws_def is_digit_def digits_val_def digit_val_def nearest_double_def

section \<open>The claims\<close>

subsection \<open>Creating a task\<close>

text \<open>
  C1, as amended. For every request body whose \<open>title\<close> is a string, \<open>createTask\<close>
  succeeds when the string is not empty: it responds with status 201 and the new task
  \<open>{id: nextId, title, completed: false}\<close>, appends that task to the array and counts
  \<open>nextId\<close> up by one. When the string is empty, it responds with status 400 and the
  error "Title is required and must be a string", and leaves the state as it is: the
  guard \<open>!title\<close> rejects the empty string.
\<close>

theorem createTask_accepts_nonempty_title:
  "property ''title'' b = Some (JStr str) \<Longrightarrow>
     (str \<noteq> [] \<longrightarrow> createTask b s =
        (\<lparr>status = 201,
          document = TaskDoc \<lparr>task_id = nextId s, title = str, completed = False\<rparr>\<rparr>,
         s\<lparr>tasks := tasks s @ [\<lparr>task_id = nextId s, title = str, completed = False\<rparr>],
           nextId := nextId s + 1\<rparr>))
   \<and> (str = [] \<longrightarrow> createTask b s =
        (\<lparr>status = 400, document = ErrorDoc ''Title is required and must be a string''\<rparr>, s))"
  by (simp add: createTask_def title_error_def Let_def)

theorem createTask_accepts_nonempty_title_witness:
  "property ''title'' [(''title'', JStr ''Buy milk'')] = Some (JStr ''Buy milk'')
   \<and> createTask [(''title'', JStr ''Buy milk'')] initial_store =
     (\<lparr>status = 201,
       document = TaskDoc \<lparr>task_id = 1, title = ''Buy milk'', completed = False\<rparr>\<rparr>,
      \<lparr>tasks = [\<lparr>task_id = 1, title = ''Buy milk'', completed = False\<rparr>], nextId = 2\<rparr>)"
proof -
  have h: "property ''title'' [(''title'', JStr ''Buy milk'')] = Some (JStr ''Buy milk'')"
    by (simp add: property_def)
  show ?thesis
    using h createTask_accepts_nonempty_title [OF h, of initial_store]
    by (simp add: initial_store_def)
qed

text \<open>
  C1 as it was stated fails at the body \<open>{"title": ""}\<close>: the title is present and of
  string type, and \<open>createTask\<close> answers 400 and adds nothing.
\<close>

theorem createTask_empty_title_rejected:
  "property ''title'' [(''title'', JStr '''')] = Some (JStr '''')
   \<and> typeof (property ''title'' [(''title'', JStr '''')]) = ''string''
   \<and> createTask [(''title'', JStr '''')] initial_store =
       (\<lparr>status = 400, document = ErrorDoc ''Title is required and must be a string''\<rparr>,
        initial_store)
   \<and> status (fst (createTask [(''title'', JStr '''')] initial_store)) \<noteq> 201
   \<and> tasks (snd (createTask [(''title'', JStr '''')] initial_store)) = []"
  by (simp add: createTask_def property_def title_error_def initial_store_def)

text \<open>
  C4. For every request body whose \<open>title\<close> is absent or is not a string, \<open>createTask\<close>
  responds with status 400 and the error "Title is required and must be a string", and
  the state (the array and the counter) is what it was.
\<close>

theorem createTask_rejects_missing_title:
  "\<forall>str. property ''title'' b \<noteq> Some (JStr str) \<Longrightarrow>
     createTask b s =
       (\<lparr>status = 400, document = ErrorDoc ''Title is required and must be a string''\<rparr>, s)"
  by (cases "property ''title'' b" rule: typeof.cases)
    (simp_all add: createTask_def title_error_def)

theorem createTask_rejects_missing_title_witness:
  "(\<forall>str. property ''title'' [] \<noteq> Some (JStr str))
   \<and> createTask [] initial_store =
       (\<lparr>status = 400, document = ErrorDoc ''Title is required and must be a string''\<rparr>,
        initial_store)
   \<and> (\<forall>str. property ''title'' [(''title'', JNum 5)] \<noteq> Some (JStr str))
   \<and> createTask [(''title'', JNum 5)] initial_store =
       (\<lparr>status = 400, document = ErrorDoc ''Title is required and must be a string''\<rparr>,
        initial_store)"
proof -
  have h1: "\<forall>str. property ''title'' [] \<noteq> Some (JStr str)"
    by (simp add: property_def)
  have h2: "\<forall>str. property ''title'' [(''title'', JNum 5)] \<noteq> Some (JStr str)"
    by (simp add: property_def)
  from h1 h2
    createTask_rejects_missing_title [OF h1, of initial_store]
    createTask_rejects_missing_title [OF h2, of initial_store]
  show ?thesis by blast
qed

text \<open>
  C2. In any run of requests from the initial state, the identifiers that the
  successful creations report are 1, 2, 3 and so on in this order: strictly
  increasing, without a gap and without a repeat, and the tasks of the array carry
  exactly these identifiers. When the run consists of creations that all succeed, the
  identifiers are 1 up to the number of requests.
\<close>

theorem created_ids_count_up:
  "created_ids (fst (run rs initial_store))
     = [1 .. int (length (created_ids (fst (run rs initial_store))))]
   \<and> sorted_wrt (<) (created_ids (fst (run rs initial_store)))
   \<and> distinct (created_ids (fst (run rs initial_store)))
   \<and> map task_id (tasks (snd (run rs initial_store))) = created_ids (fst (run rs initial_store))
   \<and> ((\<forall>r\<in>set rs. is_create r) \<and> (\<forall>resp\<in>set (fst (run rs initial_store)). status resp = 201)
        \<longrightarrow> created_ids (fst (run rs initial_store)) = [1 .. int (length rs)])"
proof -
  let ?ids = "created_ids (fst (run rs initial_store))"
  have a: "?ids = [1 .. int (length ?ids)]"
    using run_ids [of rs initial_store] by (simp add: initial_store_def)
  have b: "sorted_wrt (<) ?ids"
    by (subst a) (rule sorted_wrt_upto)
  have c: "distinct ?ids"
    by (subst a) (rule distinct_upto)
  have d: "map task_id (tasks (snd (run rs initial_store))) = ?ids"
    using run_ids [of rs initial_store] by (simp add: initial_store_def)
  have e: "(\<forall>r\<in>set rs. is_create r) \<and> (\<forall>resp\<in>set (fst (run rs initial_store)). status resp = 201)
        \<longrightarrow> ?ids = [1 .. int (length rs)]"
    using a created_ids_all [of rs initial_store] by auto
  from a b c d e show ?thesis by blast
qed

theorem created_ids_count_up_witness:
  "is_create (POST_tasks [(''title'', JStr ''A'')])
   \<and> is_create (POST_tasks [(''title'', JStr ''B'')])
   \<and> map status (fst (run [POST_tasks [(''title'', JStr ''A'')],
                          POST_tasks [(''title'', JStr ''B'')]] initial_store)) = [201, 201]
   \<and> created_ids (fst (run [POST_tasks [(''title'', JStr ''A'')],
                           POST_tasks [(''title'', JStr ''B'')]] initial_store)) = [1, 2]"
proof -
  let ?rs = "[POST_tasks [(''title'', JStr ''A'')], POST_tasks [(''title'', JStr ''B'')]]"
  have c: "is_create (POST_tasks [(''title'', JStr ''A'')])"
    "is_create (POST_tasks [(''title'', JStr ''B'')])"
    by (simp_all add: is_create_def)
  have st: "map status (fst (run ?rs initial_store)) = [201, 201]"
    by (simp add: createTask_def property_def initial_store_def Let_def)
  from c have h1: "\<forall>r\<in>set ?rs. is_create r"
    by simp
  have "\<forall>x\<in>set (map status (fst (run ?rs initial_store))). x = 201"
    by (subst st) simp
  then have h2: "\<forall>resp\<in>set (fst (run ?rs initial_store)). status resp = 201"
    by (simp del: run.simps)
  from created_ids_count_up [of ?rs] h1 h2
  have "created_ids (fst (run ?rs initial_store)) = [1 .. int (length ?rs)]"
    by blast
  moreover have "[1 .. int (length ?rs)] = [1, 2]"
    by (simp add: upto_rec1)
  ultimately have "created_ids (fst (run ?rs initial_store)) = [1, 2]"
    by (simp only:)
  with c st show ?thesis by blast
qed

subsection \<open>The completion flag\<close>

text \<open>
  C3. A request keeps every task of the array at its place, and a task that is
  completed stays completed; where the flag of a stored task changes, the request is
  the route of \<open>markTaskAsDone\<close> with a path segment that parses to the identifier of
  that task; a task that the request adds is not completed and is added by the route
  of \<open>createTask\<close>. Over any run of requests, a completed task stays completed.
\<close>

theorem completed_only_rises:
  "(\<forall>i<length (tasks s). i < length (tasks (snd (router r s)))
        \<and> (completed (tasks s ! i) \<longrightarrow> completed (tasks (snd (router r s)) ! i)))
   \<and> (\<forall>i<length (tasks s). completed (tasks (snd (router r s)) ! i) \<noteq> completed (tasks s ! i) \<longrightarrow>
        (\<exists>idseg. r = PATCH_tasks_id_done idseg \<and> parseInt idseg = Num (task_id (tasks s ! i))))
   \<and> (\<forall>i<length (tasks (snd (router r s))). length (tasks s) \<le> i \<longrightarrow>
        \<not> completed (tasks (snd (router r s)) ! i) \<and> (\<exists>b. r = POST_tasks b))
   \<and> (\<forall>i<length (tasks s). completed (tasks s ! i) \<longrightarrow>
        i < length (tasks (snd (run rs s))) \<and> completed (tasks (snd (run rs s)) ! i))"
  using step_keeps [of _ s r] step_change [of _ s r] step_new [of _ r s] run_keeps [of _ s rs]
  by blast

theorem completed_only_rises_witness:
  "(0::nat) < length (tasks \<lparr>tasks = [\<lparr>task_id = 1, title = ''A'', completed = True\<rparr>], nextId = 2\<rparr>)
   \<and> completed (tasks \<lparr>tasks = [\<lparr>task_id = 1, title = ''A'', completed = True\<rparr>], nextId = 2\<rparr> ! 0)
   \<and> completed (tasks (snd (router (PATCH_tasks_id_done ''1'')
        \<lparr>tasks = [\<lparr>task_id = 1, title = ''A'', completed = True\<rparr>], nextId = 2\<rparr>)) ! 0)
   \<and> completed (tasks (snd (run [POST_tasks [(''title'', JStr ''B'')], PATCH_tasks_id_done ''2'']
        \<lparr>tasks = [\<lparr>task_id = 1, title = ''A'', completed = True\<rparr>], nextId = 2\<rparr>)) ! 0)"
proof -
  let ?s = "\<lparr>tasks = [\<lparr>task_id = 1, title = ''A'', completed = True\<rparr>], nextId = 2\<rparr>"
  have h: "(0::nat) < length (tasks ?s)" "completed (tasks ?s ! 0)"
    by simp_all
  from h completed_only_rises [of ?s "PATCH_tasks_id_done ''1''"
      "[POST_tasks [(''title'', JStr ''B'')], PATCH_tasks_id_done ''2'']"]
  show ?thesis by blast
qed

subsection \<open>Marking a task as done\<close>

text \<open>
  C5. For every path segment, \<open>markTaskAsDone\<close> responds with status 400 exactly when
  \<open>parseInt\<close> yields not-a-number, and then with the error "Invalid ID format" and the
  state unchanged. Otherwise, when no stored task has the parsed identifier, it
  responds 404 with the error "Task not found" and the state unchanged; when one has,
  it responds 200 with the first such task, completed, and that task is completed in
  the array. A segment whose digits go beyond the largest double parses to an
  infinity, which no stored task has as its identifier: 404 and the state unchanged.
\<close>

theorem markTaskAsDone_outcomes:
  "(status (fst (markTaskAsDone idseg s)) = 400 \<longleftrightarrow> parseInt idseg = NaN)
   \<and> (parseInt idseg = NaN \<longrightarrow>
        markTaskAsDone idseg s = (\<lparr>status = 400, document = ErrorDoc ''Invalid ID format''\<rparr>, s))
   \<and> (\<forall>n. parseInt idseg = Num n \<and> n \<notin> task_id ` set (tasks s) \<longrightarrow>
        markTaskAsDone idseg s = (\<lparr>status = 404, document = ErrorDoc ''Task not found''\<rparr>, s))
   \<and> (\<forall>n. parseInt idseg = Num n \<and> n \<in> task_id ` set (tasks s) \<longrightarrow>
        (\<exists>i<length (tasks s). task_id (tasks s ! i) = n \<and> (\<forall>j<i. task_id (tasks s ! j) \<noteq> n)
          \<and> fst (markTaskAsDone idseg s)
               = \<lparr>status = 200, document = TaskDoc ((tasks s ! i)\<lparr>completed := True\<rparr>)\<rparr>
          \<and> tasks (snd (markTaskAsDone idseg s)) ! i = (tasks s ! i)\<lparr>completed := True\<rparr>))
   \<and> (parseInt idseg = Infinity \<or> parseInt idseg = NegInfinity \<longrightarrow>
        markTaskAsDone idseg s = (\<lparr>status = 404, document = ErrorDoc ''Task not found''\<rparr>, s))"
proof -
  have a: "status (fst (markTaskAsDone idseg s)) = 400 \<longleftrightarrow> parseInt idseg = NaN"
  proof (cases "parseInt idseg")
    case NaN
    then show ?thesis by (simp add: markTaskAsDone_NaN)
  next
    case (Num n)
    then show ?thesis
      using markTaskAsDone_absent [OF Num, of s] markTaskAsDone_present [OF Num, of s]
      by (cases "n \<in> task_id ` set (tasks s)") auto
  next
    case Infinity
    then show ?thesis by (simp add: markTaskAsDone_infinite)
  next
    case NegInfinity
    then show ?thesis by (simp add: markTaskAsDone_infinite)
  qed
  have d: "\<forall>n. parseInt idseg = Num n \<and> n \<in> task_id ` set (tasks s) \<longrightarrow>
        (\<exists>i<length (tasks s). task_id (tasks s ! i) = n \<and> (\<forall>j<i. task_id (tasks s ! j) \<noteq> n)
          \<and> fst (markTaskAsDone idseg s)
               = \<lparr>status = 200, document = TaskDoc ((tasks s ! i)\<lparr>completed := True\<rparr>)\<rparr>
          \<and> tasks (snd (markTaskAsDone idseg s)) ! i = (tasks s ! i)\<lparr>completed := True\<rparr>)"
  proof (intro allI impI)
    fix n assume h: "parseInt idseg = Num n \<and> n \<in> task_id ` set (tasks s)"
    from markTaskAsDone_present [of idseg n s] h
    obtain i where "i < length (tasks s)" "task_id (tasks s ! i) = n"
      "\<forall>j<i. task_id (tasks s ! j) \<noteq> n"
      "markTaskAsDone idseg s =
         (\<lparr>status = 200, document = TaskDoc ((tasks s ! i)\<lparr>completed := True\<rparr>)\<rparr>,
          s\<lparr>tasks := (tasks s)[i := (tasks s ! i)\<lparr>completed := True\<rparr>]\<rparr>)"
      by blast
    then show "\<exists>i<length (tasks s). task_id (tasks s ! i) = n \<and> (\<forall>j<i. task_id (tasks s ! j) \<noteq> n)
          \<and> fst (markTaskAsDone idseg s)
               = \<lparr>status = 200, document = TaskDoc ((tasks s ! i)\<lparr>completed := True\<rparr>)\<rparr>
          \<and> tasks (snd (markTaskAsDone idseg s)) ! i = (tasks s ! i)\<lparr>completed := True\<rparr>"
      by (intro exI [of _ i]) simp
  qed
  from a d markTaskAsDone_NaN [of idseg s] markTaskAsDone_absent [of idseg _ s]
    markTaskAsDone_infinite [of idseg s]
  show ?thesis by blast
qed

theorem markTaskAsDone_outcomes_witness:
  "parseInt ''abc'' = NaN
   \<and> markTaskAsDone ''abc'' initial_store
       = (\<lparr>status = 400, document = ErrorDoc ''Invalid ID format''\<rparr>, initial_store)
   \<and> parseInt ''7'' = Num 7 \<and> 7 \<notin> task_id ` set (tasks initial_store)
   \<and> markTaskAsDone ''7'' initial_store
       = (\<lparr>status = 404, document = ErrorDoc ''Task not found''\<rparr>, initial_store)
   \<and> parseInt ''1'' = Num 1
   \<and> 1 \<in> task_id ` set (tasks \<lparr>tasks = [\<lparr>task_id = 1, title = ''A'', completed = False\<rparr>], nextId = 2\<rparr>)
   \<and> fst (markTaskAsDone ''1'' \<lparr>tasks = [\<lparr>task_id = 1, title = ''A'', completed = False\<rparr>], nextId = 2\<rparr>)
       = \<lparr>status = 200, document = TaskDoc \<lparr>task_id = 1, title = ''A'', completed = True\<rparr>\<rparr>
   \<and> parseInt (replicate 309 CHR ''9'') = Infinity
   \<and> markTaskAsDone (replicate 309 CHR ''9'') initial_store
       = (\<lparr>status = 404, document = ErrorDoc ''Task not found''\<rparr>, initial_store)"
proof -
  let ?s = "\<lparr>tasks = [\<lparr>task_id = 1, title = ''A'', completed = False\<rparr>], nextId = 2\<rparr>"
  have p1: "parseInt ''abc'' = NaN"
    by (simp add: parse_defs)
  have p2: "parseInt ''7'' = Num 7" "7 \<notin> task_id ` set (tasks initial_store)"
    by (simp_all add: parse_defs initial_store_def)
  have p3: "parseInt ''1'' = Num 1" "1 \<in> task_id ` set (tasks ?s)"
    by (simp_all add: parse_defs)
  from markTaskAsDone_outcomes [of "''abc''" initial_store] p1
  have r1: "markTaskAsDone ''abc'' initial_store
       = (\<lparr>status = 400, document = ErrorDoc ''Invalid ID format''\<rparr>, initial_store)"
    by blast
  from markTaskAsDone_outcomes [of "''7''" initial_store] p2
  have r2: "markTaskAsDone ''7'' initial_store
       = (\<lparr>status = 404, document = ErrorDoc ''Task not found''\<rparr>, initial_store)"
    by blast
  from markTaskAsDone_outcomes [of "''1''" ?s] p3
  have "\<exists>i<length (tasks ?s). fst (markTaskAsDone ''1'' ?s)
               = \<lparr>status = 200, document = TaskDoc ((tasks ?s ! i)\<lparr>completed := True\<rparr>)\<rparr>"
    by blast
  then have r3: "fst (markTaskAsDone ''1'' ?s)
       = \<lparr>status = 200, document = TaskDoc \<lparr>task_id = 1, title = ''A'', completed = True\<rparr>\<rparr>"
    by simp
  from markTaskAsDone_outcomes [of "replicate 309 CHR ''9''" initial_store] parseInt_overflow
  have r4: "markTaskAsDone (replicate 309 CHR ''9'') initial_store
       = (\<lparr>status = 404, document = ErrorDoc ''Task not found''\<rparr>, initial_store)"
    by blast
  from p1 p2 p3 r1 r2 r3 r4 parseInt_overflow show ?thesis by blast
qed

text \<open>
  C7. When the path segment parses to the identifier of a stored task,
  \<open>markTaskAsDone\<close> responds 200 with a completed task of that identifier, and a second
  call with the same segment gives the same response and leaves the state that the
  first call left. On a task that is completed already the call changes nothing and
  responds 200 with that task.
\<close>

theorem markTaskAsDone_idempotent:
  "parseInt idseg = Num n \<Longrightarrow> n \<in> task_id ` set (tasks s) \<Longrightarrow>
     status (fst (markTaskAsDone idseg s)) = 200
   \<and> (\<exists>t. document (fst (markTaskAsDone idseg s)) = TaskDoc t \<and> task_id t = n \<and> completed t)
   \<and> markTaskAsDone idseg (snd (markTaskAsDone idseg s)) = markTaskAsDone idseg s
   \<and> (\<forall>t. find (\<lambda>t. task_id t = n) (tasks s) = Some t \<and> completed t \<longrightarrow>
         markTaskAsDone idseg s = (\<lparr>status = 200, document = TaskDoc t\<rparr>, s))"
proof -
  assume p: "parseInt idseg = Num n" and a: "n \<in> task_id ` set (tasks s)"
  define P :: "task \<Rightarrow> bool" where "P = (\<lambda>t. strict_eq (task_id t) (Num n))"
  from a have "findIndex P (tasks s) \<noteq> None"
    by (auto simp: findIndex_None P_def)
  then obtain i where i: "findIndex P (tasks s) = Some i"
    by auto
  from findIndex_Some [OF i] have il: "i < length (tasks s)" and idi: "task_id (tasks s ! i) = n"
    by (simp_all add: P_def)
  define t1 where "t1 = (tasks s ! i)\<lparr>completed := True\<rparr>"
  define s1 where "s1 = s\<lparr>tasks := (tasks s)[i := t1]\<rparr>"
  have first: "markTaskAsDone idseg s = (\<lparr>status = 200, document = TaskDoc t1\<rparr>, s1)"
    using p i il by (simp add: markTaskAsDone_def Let_def P_def t1_def s1_def)
  have "map P ((tasks s)[i := t1]) = map P (tasks s)"
    by (rule map_update_same) (simp add: P_def t1_def)
  then have "findIndex P (tasks s1) = Some i"
    using i findIndex_map_cong [of P "(tasks s)[i := t1]" "tasks s"] by (simp add: s1_def)
  moreover have "(tasks s1)[i := (tasks s1 ! i)\<lparr>completed := True\<rparr>] = tasks s1"
    using il by (simp add: s1_def t1_def)
  moreover have "tasks s1 ! i = t1"
    using il by (simp add: s1_def)
  ultimately have second: "markTaskAsDone idseg s1 = (\<lparr>status = 200, document = TaskDoc t1\<rparr>, s1)"
    using p by (simp add: markTaskAsDone_def Let_def P_def)
  have t1: "task_id t1 = n" "completed t1"
    using idi by (simp_all add: t1_def)
  have noop: "markTaskAsDone idseg s = (\<lparr>status = 200, document = TaskDoc t\<rparr>, s)"
    if h: "find (\<lambda>t. task_id t = n) (tasks s) = Some t \<and> completed t" for t
  proof -
    have "find P (tasks s) = Some (tasks s ! i)"
      by (simp add: find_findIndex i)
    moreover have "P = (\<lambda>t. task_id t = n)"
      by (simp add: P_def)
    ultimately have t: "t = tasks s ! i" "completed (tasks s ! i)"
      using h by simp_all
    from t(2) have "t1 = tasks s ! i"
      unfolding t1_def by (rule complete_again)
    then have "s1 = s"
      using il by (simp add: s1_def)
    with first \<open>t1 = tasks s ! i\<close> t(1) show ?thesis
      by simp
  qed
  have one: "status (fst (markTaskAsDone idseg s)) = 200"
    by (simp add: first)
  have two: "\<exists>t. document (fst (markTaskAsDone idseg s)) = TaskDoc t \<and> task_id t = n \<and> completed t"
    using t1 by (simp add: first)
  have three: "markTaskAsDone idseg (snd (markTaskAsDone idseg s)) = markTaskAsDone idseg s"
    by (simp add: first second)
  from one two three noop show ?thesis
    by blast
qed

theorem markTaskAsDone_idempotent_witness:
  "parseInt ''1'' = Num 1
   \<and> 1 \<in> task_id ` set (tasks \<lparr>tasks = [\<lparr>task_id = 1, title = ''A'', completed = False\<rparr>], nextId = 2\<rparr>)
   \<and> status (fst (markTaskAsDone ''1''
        \<lparr>tasks = [\<lparr>task_id = 1, title = ''A'', completed = False\<rparr>], nextId = 2\<rparr>)) = 200
   \<and> markTaskAsDone ''1'' (snd (markTaskAsDone ''1''
        \<lparr>tasks = [\<lparr>task_id = 1, title = ''A'', completed = False\<rparr>], nextId = 2\<rparr>))
      = markTaskAsDone ''1'' \<lparr>tasks = [\<lparr>task_id = 1, title = ''A'', completed = False\<rparr>], nextId = 2\<rparr>
   \<and> 1 \<in> task_id ` set (tasks \<lparr>tasks = [\<lparr>task_id = 1, title = ''A'', completed = True\<rparr>], nextId = 2\<rparr>)
   \<and> find (\<lambda>t. task_id t = 1) (tasks \<lparr>tasks = [\<lparr>task_id = 1, title = ''A'', completed = True\<rparr>], nextId = 2\<rparr>)
        = Some \<lparr>task_id = 1, title = ''A'', completed = True\<rparr>
   \<and> markTaskAsDone ''1'' \<lparr>tasks = [\<lparr>task_id = 1, title = ''A'', completed = True\<rparr>], nextId = 2\<rparr>
      = (\<lparr>status = 200, document = TaskDoc \<lparr>task_id = 1, title = ''A'', completed = True\<rparr>\<rparr>,
         \<lparr>tasks = [\<lparr>task_id = 1, title = ''A'', completed = True\<rparr>], nextId = 2\<rparr>)"
proof -
  let ?s = "\<lparr>tasks = [\<lparr>task_id = 1, title = ''A'', completed = False\<rparr>], nextId = 2\<rparr>"
  let ?t = "\<lparr>task_id = 1, title = ''A'', completed = True\<rparr>"
  let ?d = "\<lparr>tasks = [?t], nextId = 2\<rparr>"
  have p: "parseInt ''1'' = Num 1"
    by (simp add: parse_defs)
  have m: "1 \<in> task_id ` set (tasks ?s)"
    by simp
  have md: "1 \<in> task_id ` set (tasks ?d)"
    by simp
  have f: "find (\<lambda>t. task_id t = 1) (tasks ?d) = Some ?t" "completed ?t"
    by simp_all
  from markTaskAsDone_idempotent [OF p m]
  have r1: "status (fst (markTaskAsDone ''1'' ?s)) = 200"
    "markTaskAsDone ''1'' (snd (markTaskAsDone ''1'' ?s)) = markTaskAsDone ''1'' ?s"
    by blast+
  from markTaskAsDone_idempotent [OF p md] f
  have r2: "markTaskAsDone ''1'' ?d = (\<lparr>status = 200, document = TaskDoc ?t\<rparr>, ?d)"
    by blast
  from p m md f(1) r1 r2 show ?thesis by blast
qed

text \<open>
  C9. When \<open>markTaskAsDone\<close> responds 200, the array differs from the one before at one
  place only, the place of a task whose identifier the path segment parses to, and
  there only in the flag \<open>completed\<close>, which is set: the identifier and the title of
  that task, every other task, the order and the length of the array, and the counter
  \<open>nextId\<close> are what they were.
\<close>

theorem markTaskAsDone_frame:
  "status (fst (markTaskAsDone idseg s)) = 200 \<Longrightarrow>
     \<exists>i<length (tasks s).
        parseInt idseg = Num (task_id (tasks s ! i))
      \<and> tasks (snd (markTaskAsDone idseg s)) = (tasks s)[i := (tasks s ! i)\<lparr>completed := True\<rparr>]
      \<and> task_id (tasks (snd (markTaskAsDone idseg s)) ! i) = task_id (tasks s ! i)
      \<and> title (tasks (snd (markTaskAsDone idseg s)) ! i) = title (tasks s ! i)
      \<and> completed (tasks (snd (markTaskAsDone idseg s)) ! i)
      \<and> (\<forall>j<length (tasks s). j \<noteq> i \<longrightarrow> tasks (snd (markTaskAsDone idseg s)) ! j = tasks s ! j)
      \<and> length (tasks (snd (markTaskAsDone idseg s))) = length (tasks s)
      \<and> map task_id (tasks (snd (markTaskAsDone idseg s))) = map task_id (tasks s)
      \<and> map title (tasks (snd (markTaskAsDone idseg s))) = map title (tasks s)
      \<and> nextId (snd (markTaskAsDone idseg s)) = nextId s"
proof -
  assume ok: "status (fst (markTaskAsDone idseg s)) = 200"
  obtain resp s1 where r: "markTaskAsDone idseg s = (resp, s1)"
    by (cases "markTaskAsDone idseg s")
  from markTaskAsDone_cases [OF r] ok r
  obtain i where i: "i < length (tasks s)" "parseInt idseg = Num (task_id (tasks s ! i))"
    "s1 = s\<lparr>tasks := (tasks s)[i := (tasks s ! i)\<lparr>completed := True\<rparr>]\<rparr>"
    by auto
  show ?thesis
    unfolding r snd_conv
    by (rule exI [of _ i]) (simp add: i map_update_same)
qed

theorem markTaskAsDone_frame_witness:
  "status (fst (markTaskAsDone ''1''
      \<lparr>tasks = [\<lparr>task_id = 1, title = ''A'', completed = False\<rparr>,
                \<lparr>task_id = 2, title = ''B'', completed = False\<rparr>], nextId = 3\<rparr>)) = 200
   \<and> map title (tasks (snd (markTaskAsDone ''1''
      \<lparr>tasks = [\<lparr>task_id = 1, title = ''A'', completed = False\<rparr>,
                \<lparr>task_id = 2, title = ''B'', completed = False\<rparr>], nextId = 3\<rparr>))) = [''A'', ''B'']
   \<and> map task_id (tasks (snd (markTaskAsDone ''1''
      \<lparr>tasks = [\<lparr>task_id = 1, title = ''A'', completed = False\<rparr>,
                \<lparr>task_id = 2, title = ''B'', completed = False\<rparr>], nextId = 3\<rparr>))) = [1, 2]
   \<and> nextId (snd (markTaskAsDone ''1''
      \<lparr>tasks = [\<lparr>task_id = 1, title = ''A'', completed = False\<rparr>,
                \<lparr>task_id = 2, title = ''B'', completed = False\<rparr>], nextId = 3\<rparr>)) = 3"
proof -
  let ?s = "\<lparr>tasks = [\<lparr>task_id = 1, title = ''A'', completed = False\<rparr>,
                \<lparr>task_id = 2, title = ''B'', completed = False\<rparr>], nextId = 3\<rparr>"
  have h: "status (fst (markTaskAsDone ''1'' ?s)) = 200"
    by (simp add: markTaskAsDone_def parse_defs)
  from markTaskAsDone_frame [OF h]
  have "map title (tasks (snd (markTaskAsDone ''1'' ?s))) = map title (tasks ?s)"
    "map task_id (tasks (snd (markTaskAsDone ''1'' ?s))) = map task_id (tasks ?s)"
    "nextId (snd (markTaskAsDone ''1'' ?s)) = nextId ?s"
    by blast+
  with h show ?thesis by simp
qed

subsection \<open>Reading tasks\<close>

text \<open>
  C6. \<open>getTaskById\<close> never responds 400 and never changes the state. A path segment
  that parses to not-a-number matches no task and gives 404 with the error "Task not
  found", as does a number that no stored task has as its identifier; when a stored
  task has the parsed identifier, the response is 200 with the first such task. On
  the initial state the segment \<open>999\<close> gives 404. A segment that parses to an
  infinity matches no task either and gives 404.
\<close>

theorem getTaskById_outcomes:
  "status (fst (getTaskById idseg s)) \<noteq> 400
   \<and> snd (getTaskById idseg s) = s
   \<and> (parseInt idseg = NaN \<longrightarrow>
        fst (getTaskById idseg s) = \<lparr>status = 404, document = ErrorDoc ''Task not found''\<rparr>)
   \<and> (\<forall>n. parseInt idseg = Num n \<and> n \<notin> task_id ` set (tasks s) \<longrightarrow>
        fst (getTaskById idseg s) = \<lparr>status = 404, document = ErrorDoc ''Task not found''\<rparr>)
   \<and> (\<forall>n. parseInt idseg = Num n \<and> n \<in> task_id ` set (tasks s) \<longrightarrow>
        (\<exists>i<length (tasks s). task_id (tasks s ! i) = n \<and> (\<forall>j<i. task_id (tasks s ! j) \<noteq> n)
          \<and> fst (getTaskById idseg s) = \<lparr>status = 200, document = TaskDoc (tasks s ! i)\<rparr>))
   \<and> fst (getTaskById ''999'' initial_store)
        = \<lparr>status = 404, document = ErrorDoc ''Task not found''\<rparr>
   \<and> (parseInt idseg = Infinity \<or> parseInt idseg = NegInfinity \<longrightarrow>
        fst (getTaskById idseg s) = \<lparr>status = 404, document = ErrorDoc ''Task not found''\<rparr>)"
proof -
  have a: "status (fst (getTaskById idseg s)) \<noteq> 400"
    by (simp add: getTaskById_def Let_def split: option.splits)
  have e: "fst (getTaskById ''999'' initial_store)
        = \<lparr>status = 404, document = ErrorDoc ''Task not found''\<rparr>"
    by (simp add: getTaskById_def initial_store_def not_found_def)
  from a e getTaskById_unchanged [of idseg s] getTaskById_NaN [of idseg s]
    getTaskById_absent [of idseg _ s] getTaskById_present [of idseg _ s]
    getTaskById_infinite [of idseg s]
  show ?thesis by blast
qed

theorem getTaskById_outcomes_witness:
  "parseInt ''abc'' = NaN
   \<and> fst (getTaskById ''abc'' \<lparr>tasks = [\<lparr>task_id = 1, title = ''A'', completed = False\<rparr>], nextId = 2\<rparr>)
       = \<lparr>status = 404, document = ErrorDoc ''Task not found''\<rparr>
   \<and> parseInt ''999'' = Num 999 \<and> 999 \<notin> task_id ` set (tasks initial_store)
   \<and> fst (getTaskById ''999'' initial_store)
       = \<lparr>status = 404, document = ErrorDoc ''Task not found''\<rparr>
   \<and> parseInt ''1'' = Num 1
   \<and> 1 \<in> task_id ` set (tasks \<lparr>tasks = [\<lparr>task_id = 1, title = ''A'', completed = False\<rparr>], nextId = 2\<rparr>)
   \<and> fst (getTaskById ''1'' \<lparr>tasks = [\<lparr>task_id = 1, title = ''A'', completed = False\<rparr>], nextId = 2\<rparr>)
       = \<lparr>status = 200, document = TaskDoc \<lparr>task_id = 1, title = ''A'', completed = False\<rparr>\<rparr>
   \<and> parseInt (replicate 309 CHR ''9'') = Infinity
   \<and> fst (getTaskById (replicate 309 CHR ''9'') initial_store)
       = \<lparr>status = 404, document = ErrorDoc ''Task not found''\<rparr>"
proof -
  let ?s = "\<lparr>tasks = [\<lparr>task_id = 1, title = ''A'', completed = False\<rparr>], nextId = 2\<rparr>"
  have p1: "parseInt ''abc'' = NaN"
    by (simp add: parse_defs)
  have p2: "parseInt ''999'' = Num 999" "999 \<notin> task_id ` set (tasks initial_store)"
    by (simp_all add: parse_defs initial_store_def)
  have p3: "parseInt ''1'' = Num 1" "1 \<in> task_id ` set (tasks ?s)"
    by (simp_all add: parse_defs)
  from getTaskById_outcomes [of "''abc''" ?s] p1
  have r1: "fst (getTaskById ''abc'' ?s) = \<lparr>status = 404, document = ErrorDoc ''Task not found''\<rparr>"
    by blast
  from getTaskById_outcomes [of "''999''" initial_store] p2
  have r2: "fst (getTaskById ''999'' initial_store)
      = \<lparr>status = 404, document = ErrorDoc ''Task not found''\<rparr>"
    by blast
  from getTaskById_outcomes [of "''1''" ?s] p3
  have "\<exists>i<length (tasks ?s).
      fst (getTaskById ''1'' ?s) = \<lparr>status = 200, document = TaskDoc (tasks ?s ! i)\<rparr>"
    by blast
  then have r3: "fst (getTaskById ''1'' ?s)
      = \<lparr>status = 200, document = TaskDoc \<lparr>task_id = 1, title = ''A'', completed = False\<rparr>\<rparr>"
    by simp
  from getTaskById_outcomes [of "replicate 309 CHR ''9''" initial_store] parseInt_overflow
  have r4: "fst (getTaskById (replicate 309 CHR ''9'') initial_store)
      = \<lparr>status = 404, document = ErrorDoc ''Task not found''\<rparr>"
    by blast
  from p1 p2 p3 r1 r2 r3 r4 parseInt_overflow show ?thesis by blast
qed

text \<open>
  C8. \<open>getAllTasks\<close> responds, on every state, with status 200 and the whole task
  array, and leaves the state as it is. The array is in the order of insertion: after
  a creation that succeeds, the list is the list before with the new task at its end.
\<close>

theorem getAllTasks_lists_store:
  "fst (getAllTasks s) = \<lparr>status = 200, document = TaskListDoc (tasks s)\<rparr>
   \<and> snd (getAllTasks s) = s
   \<and> (status (fst (createTask b s)) = 201 \<longrightarrow>
        (\<exists>t. fst (createTask b s) = \<lparr>status = 201, document = TaskDoc t\<rparr>
           \<and> fst (getAllTasks (snd (createTask b s)))
                = \<lparr>status = 200, document = TaskListDoc (tasks s @ [t])\<rparr>))"
  by (auto simp: getAllTasks_def createTask_def Let_def split: option.splits json.splits)

theorem getAllTasks_lists_store_witness:
  "status (fst (createTask [(''title'', JStr ''Buy milk'')] initial_store)) = 201
   \<and> fst (getAllTasks (snd (createTask [(''title'', JStr ''Buy milk'')] initial_store)))
       = \<lparr>status = 200,
          document = TaskListDoc [\<lparr>task_id = 1, title = ''Buy milk'', completed = False\<rparr>]\<rparr>"
proof -
  let ?b = "[(''title'', JStr ''Buy milk'')]"
  have h: "status (fst (createTask ?b initial_store)) = 201"
    by (simp add: createTask_def property_def Let_def)
  have c: "fst (createTask ?b initial_store)
      = \<lparr>status = 201, document = TaskDoc \<lparr>task_id = 1, title = ''Buy milk'', completed = False\<rparr>\<rparr>"
    by (simp add: createTask_def property_def Let_def initial_store_def)
  from getAllTasks_lists_store [of initial_store ?b] h
  obtain t where t: "fst (createTask ?b initial_store) = \<lparr>status = 201, document = TaskDoc t\<rparr>"
    "fst (getAllTasks (snd (createTask ?b initial_store)))
       = \<lparr>status = 200, document = TaskListDoc (tasks initial_store @ [t])\<rparr>"
    by blast
  from t(1) c have "t = \<lparr>task_id = 1, title = ''Buy milk'', completed = False\<rparr>"
    by simp
  with t(2) h show ?thesis
    by (simp add: initial_store_def)
qed

subsection \<open>Lenient parsing of the identifier\<close>

text \<open>
  C10. A path segment that consists of decimal digits followed by further characters,
  the first of which is not a digit, is not unparseable: it parses to the Number that
  the digits denote, as the digits alone do. The digits denote the sum of their
  values by decimal position; up to \<open>2^53\<close> the parsed Number is this integer itself,
  beyond it the double nearest to it. So \<open>getTaskById\<close> and \<open>markTaskAsDone\<close> treat
  the segment as they treat the digits alone and work on the task of that identifier.
\<close>

theorem parseInt_lenient:
  assumes "ds \<noteq> []" and "\<forall>c\<in>set ds. is_digit c" and "rest \<noteq> []" and "\<not> is_digit (hd rest)"
  shows "parseInt (ds @ rest) = nearest_double (digits_val ds)
    \<and> digits_val ds = (\<Sum>i<length ds. digit_val (ds ! i) * 10 ^ (length ds - Suc i))
    \<and> (digits_val ds \<le> 2 ^ 53 \<longrightarrow> parseInt (ds @ rest) = Num (digits_val ds))
    \<and> parseInt (ds @ rest) \<noteq> NaN
    \<and> parseInt (ds @ rest) = parseInt ds
    \<and> getTaskById (ds @ rest) s = getTaskById ds s
    \<and> markTaskAsDone (ds @ rest) s = markTaskAsDone ds s"
proof -
  have a: "parseInt (ds @ rest) = nearest_double (digits_val ds)"
    using assms by (intro parseInt_digits_then) simp_all
  have b: "parseInt ds = nearest_double (digits_val ds)"
    using parseInt_digits_then [of ds "[]"] assms by simp
  have c: "digits_val ds \<le> 2 ^ 53 \<longrightarrow> parseInt (ds @ rest) = Num (digits_val ds)"
    using a digits_val_nonneg [OF assms(2)] by (simp add: nearest_double_exact)
  have d: "parseInt (ds @ rest) \<noteq> NaN"
    by (simp add: a nearest_double_not_NaN)
  from a b c d digits_val_positional [of ds] show ?thesis
    by (simp add: getTaskById_def markTaskAsDone_def)
qed

theorem parseInt_lenient_witness:
  "''1'' \<noteq> [] \<and> is_digit CHR ''1'' \<and> ''abc'' \<noteq> [] \<and> \<not> is_digit (hd ''abc'')
   \<and> parseInt ''1abc'' = Num 1
   \<and> getTaskById ''1abc'' \<lparr>tasks = [\<lparr>task_id = 1, title = ''A'', completed = False\<rparr>], nextId = 2\<rparr>
      = (\<lparr>status = 200, document = TaskDoc \<lparr>task_id = 1, title = ''A'', completed = False\<rparr>\<rparr>,
         \<lparr>tasks = [\<lparr>task_id = 1, title = ''A'', completed = False\<rparr>], nextId = 2\<rparr>)
   \<and> markTaskAsDone ''1abc'' \<lparr>tasks = [\<lparr>task_id = 1, title = ''A'', completed = False\<rparr>], nextId = 2\<rparr>
      = (\<lparr>status = 200, document = TaskDoc \<lparr>task_id = 1, title = ''A'', completed = True\<rparr>\<rparr>,
         \<lparr>tasks = [\<lparr>task_id = 1, title = ''A'', completed = True\<rparr>], nextId = 2\<rparr>)
   \<and> list_all is_digit ''1234567890'' \<and> \<not> is_digit (hd ''px'')
   \<and> digits_val ''1234567890'' = 1234567890
   \<and> parseInt ''1234567890px'' = Num 1234567890
   \<and> list_all is_digit ''9007199254740993''
   \<and> parseInt ''9007199254740993abc'' = Num 9007199254740992"
proof -
  let ?s = "\<lparr>tasks = [\<lparr>task_id = 1, title = ''A'', completed = False\<rparr>], nextId = 2\<rparr>"
  have h: "''1'' \<noteq> []" "\<forall>c\<in>set ''1''. is_digit c" "''abc'' \<noteq> []" "\<not> is_digit (hd ''abc'')"
    by (simp_all add: is_digit_def)
  from parseInt_lenient [OF h, of ?s]
  have r: "parseInt (''1'' @ ''abc'') = nearest_double (digits_val ''1'')"
    "getTaskById (''1'' @ ''abc'') ?s = getTaskById ''1'' ?s"
    "markTaskAsDone (''1'' @ ''abc'') ?s = markTaskAsDone ''1'' ?s"
    by blast+
  have v: "nearest_double (digits_val ''1'') = Num 1"
    by (simp add: digits_val_def digit_val_def nearest_double_def)
  have g: "getTaskById ''1'' ?s
      = (\<lparr>status = 200, document = TaskDoc \<lparr>task_id = 1, title = ''A'', completed = False\<rparr>\<rparr>, ?s)"
    by (simp add: getTaskById_def parse_defs)
  have m: "markTaskAsDone ''1'' ?s
      = (\<lparr>status = 200, document = TaskDoc \<lparr>task_id = 1, title = ''A'', completed = True\<rparr>\<rparr>,
         \<lparr>tasks = [\<lparr>task_id = 1, title = ''A'', completed = True\<rparr>], nextId = 2\<rparr>)"
    by (simp add: markTaskAsDone_def parse_defs)
  have one: "parseInt ''1abc'' = Num 1"
    "getTaskById ''1abc'' ?s
      = (\<lparr>status = 200, document = TaskDoc \<lparr>task_id = 1, title = ''A'', completed = False\<rparr>\<rparr>, ?s)"
    "markTaskAsDone ''1abc'' ?s
      = (\<lparr>status = 200, document = TaskDoc \<lparr>task_id = 1, title = ''A'', completed = True\<rparr>\<rparr>,
         \<lparr>tasks = [\<lparr>task_id = 1, title = ''A'', completed = True\<rparr>], nextId = 2\<rparr>)"
    using r v g m by simp_all
  have k: "list_all is_digit ''1234567890''" "\<not> is_digit (hd ''px'')"
    by (simp_all add: is_digit_def)
  then have hk: "''1234567890'' \<noteq> []" "\<forall>c\<in>set ''1234567890''. is_digit c"
    "''px'' \<noteq> []" "\<not> is_digit (hd ''px'')"
    by (simp_all add: list_all_iff)
  have kv: "digits_val ''1234567890'' = 1234567890"
    by (simp add: digits_val_def digit_val_def)
  from parseInt_lenient [OF hk, of ?s]
  have "digits_val ''1234567890'' \<le> 2 ^ 53 \<longrightarrow>
      parseInt (''1234567890'' @ ''px'') = Num (digits_val ''1234567890'')"
    by blast
  then have two: "parseInt ''1234567890px'' = Num 1234567890"
    by (simp add: kv)
  have b: "list_all is_digit ''9007199254740993''"
    by (simp add: is_digit_def)
  then have hb: "''9007199254740993'' \<noteq> []" "\<forall>c\<in>set ''9007199254740993''. is_digit c"
    by (simp_all add: list_all_iff)
  have bv: "nearest_double (digits_val ''9007199254740993'') = Num 9007199254740992"
    by code_simp
  from parseInt_lenient [OF hb h(3,4), of ?s]
  have "parseInt (''9007199254740993'' @ ''abc'') = nearest_double (digits_val ''9007199254740993'')"
    by blast
  then have three: "parseInt ''9007199254740993abc'' = Num 9007199254740992"
    by (simp add: bv)
  from h(1,3,4) one k kv two b three show ?thesis
    by (simp add: is_digit_def)
qed

end
